theory Spec2Isabelle
  imports Main
begin

text \<open>
  The abstract class \<^verbatim>\<open>MCPPrompt\<close> of \<^verbatim>\<open>src/prompts/BasePrompt.ts\<close>: the getter
  \<^verbatim>\<open>promptDefinition\<close>, the method \<^verbatim>\<open>getMessages\<close>, which merges defaults into
  the arguments and validates them before it generates messages, and the helper
  \<^verbatim>\<open>fetch\<close>; with the three handlers of its test suite.
\<close>

section \<open>JavaScript values and objects\<close>

text \<open>
  The values that travel through \<^verbatim>\<open>getMessages\<close>. Numbers are opaque to the code
  (it only asks for their \<^verbatim>\<open>typeof\<close>), so the finite ones are integers here and
  \<^verbatim>\<open>NaN\<close> is a value of its own. A nested object is an association list; the
  top-level argument objects are finite maps from property names to values, where a
  property holding \<^verbatim>\<open>undefined\<close> is a present key. A map holds the own enumerable
  properties of a plain object, so the object also inherits the members of
  \<^verbatim>\<open>Object.prototype\<close>: functions, apart from the accessor \<^verbatim>\<open>__proto__\<close>, which
  gives the prototype itself. A function is opaque and carries a name.
\<close>

datatype jsval =
    JUndefined
  | JNull
  | JBool bool
  | JNum int
  | JNaN
  | JStr string
  | JArr "jsval list"
  | JObj "(string \<times> jsval) list"
  | JFunction string

type_synonym obj = "string \<rightharpoonup> jsval"

definition Object_prototype :: "string list" where
  \<comment> \<open>the property names of \<^verbatim>\<open>Object.prototype\<close>\<close>
  "Object_prototype =
     [''constructor'', ''__defineGetter__'', ''__defineSetter__'', ''hasOwnProperty'',
      ''__lookupGetter__'', ''__lookupSetter__'', ''isPrototypeOf'', ''propertyIsEnumerable'',
      ''toString'', ''valueOf'', ''__proto__'', ''toLocaleString'']"

definition inherited_member :: "string \<Rightarrow> jsval" where
  \<comment> \<open>what a plain object gives for an inherited name that it does not have itself\<close>
  "inherited_member key = (if key = ''__proto__'' then JObj [] else JFunction key)"

definition has_key :: "obj \<Rightarrow> string \<Rightarrow> bool" where
  \<comment> \<open>\<^verbatim>\<open>key in data\<close>: true of own and of inherited names\<close>
  "has_key data key = (data key \<noteq> None \<or> key \<in> set Object_prototype)"

definition get_prop :: "obj \<Rightarrow> string \<Rightarrow> jsval" where
  \<comment> \<open>\<^verbatim>\<open>data[key]\<close>: the own property, else the inherited member, else \<^verbatim>\<open>undefined\<close>\<close>
  "get_prop data key =
     (case data key of
        Some v \<Rightarrow> v
      | None \<Rightarrow> if key \<in> set Object_prototype then inherited_member key else JUndefined)"

fun js_Boolean :: "jsval \<Rightarrow> bool" where
  "js_Boolean JUndefined = False"
| "js_Boolean JNull = False"
| "js_Boolean (JBool b) = b"
| "js_Boolean (JNum n) = (n \<noteq> 0)"
| "js_Boolean JNaN = False"
| "js_Boolean (JStr s) = (s \<noteq> [])"
| "js_Boolean (JArr xs) = True"
| "js_Boolean (JObj kvs) = True"
| "js_Boolean (JFunction f) = True"

text \<open>The decimal digits of a natural number, as a template literal prints it.\<close>

function digits_of_nat :: "nat \<Rightarrow> string" where
  "digits_of_nat n =
     (if n < 10 then [''0123456789'' ! n]
      else digits_of_nat (n div 10) @ [''0123456789'' ! (n mod 10)])"
  by pat_completeness auto
termination
  by (relation "measure id") auto

section \<open>Errors\<close>

datatype path_elem = Key string | Index nat

datatype zod_issue = ZodIssue (code: string) (path: "path_elem list") (message: string)

datatype error =
    ZodError "zod_issue list"
  | Error string

section \<open>The type descriptors of the validation library\<close>

text \<open>
  The field types come from the library \<^verbatim>\<open>zod\<close> (version 3), which the class imports.
  \<^verbatim>\<open>getMessages\<close> asks three things of a field's \<^verbatim>\<open>type\<close>: its tag
  \<^verbatim>\<open>_def.typeName\<close>, whether \<^verbatim>\<open>isOptional()\<close> holds, and its \<^verbatim>\<open>optional()\<close>
  wrapper; the object schema built from the entries then runs each field's parser. A
  descriptor is therefore its tag together with its parser, which either fails with issues
  or returns the parsed value. The library defines \<^verbatim>\<open>isOptional()\<close> as
  \<^verbatim>\<open>safeParse(undefined).success\<close>, and \<^verbatim>\<open>optional()\<close> as the wrapper tagged
  \<^verbatim>\<open>ZodOptional\<close> that returns \<^verbatim>\<open>undefined\<close> for \<^verbatim>\<open>undefined\<close> and otherwise
  runs the inner parser.
\<close>

record zod_type =
  typeName :: string
  parse :: "jsval \<Rightarrow> zod_issue list + jsval"

definition isOptional :: "zod_type \<Rightarrow> bool" where
  "isOptional t = (case parse t JUndefined of Inl _ \<Rightarrow> False | Inr _ \<Rightarrow> True)"

definition optional :: "zod_type \<Rightarrow> zod_type" where
  "optional t =
     \<lparr>typeName = ''ZodOptional'',
      parse = (\<lambda>v. if v = JUndefined then Inr JUndefined else parse t v)\<rparr>"

subsection \<open>The descriptors the handlers of the test suite use\<close>

fun getParsedType :: "jsval \<Rightarrow> string" where
  "getParsedType JUndefined = ''undefined''"
| "getParsedType JNull = ''null''"
| "getParsedType (JBool b) = ''boolean''"
| "getParsedType (JNum n) = ''number''"
| "getParsedType JNaN = ''nan''"
| "getParsedType (JStr s) = ''string''"
| "getParsedType (JArr xs) = ''array''"
| "getParsedType (JObj kvs) = ''object''"
| "getParsedType (JFunction f) = ''function''"

definition invalid_type :: "string \<Rightarrow> jsval \<Rightarrow> zod_issue" where
  "invalid_type expected v =
     ZodIssue ''invalid_type'' []
       (if v = JUndefined then ''Required''
        else ''Expected '' @ expected @ '', received '' @ getParsedType v)"

definition primitive :: "string \<Rightarrow> string \<Rightarrow> zod_type" where
  \<comment> \<open>a parser that accepts exactly the values of one parsed type, unchanged\<close>
  "primitive tag expected =
     \<lparr>typeName = tag,
      parse = (\<lambda>v. if getParsedType v = expected then Inr v
                   else Inl [invalid_type expected v])\<rparr>"

definition z_string :: zod_type where
  "z_string = primitive ''ZodString'' ''string''"

definition z_number :: zod_type where
  "z_number = primitive ''ZodNumber'' ''number''"

definition z_boolean :: zod_type where
  "z_boolean = primitive ''ZodBoolean'' ''boolean''"

definition z_any :: zod_type where
  "z_any = \<lparr>typeName = ''ZodAny'', parse = Inr\<rparr>"

definition z_coerce_boolean :: zod_type where
  \<comment> \<open>\<^verbatim>\<open>z.coerce.boolean()\<close>: a \<^verbatim>\<open>ZodBoolean\<close> that first applies \<^verbatim>\<open>Boolean(...)\<close>\<close>
  "z_coerce_boolean =
     \<lparr>typeName = ''ZodBoolean'', parse = (\<lambda>v. Inr (JBool (js_Boolean v)))\<rparr>"

definition transform :: "zod_type \<Rightarrow> (jsval \<Rightarrow> jsval) \<Rightarrow> zod_type" where
  \<comment> \<open>\<^verbatim>\<open>t.transform(f)\<close>\<close>
  "transform t f =
     \<lparr>typeName = ''ZodEffects'',
      parse = (\<lambda>v. case parse t v of Inl issues \<Rightarrow> Inl issues | Inr w \<Rightarrow> Inr (f w))\<rparr>"

definition add_path :: "path_elem \<Rightarrow> zod_issue \<Rightarrow> zod_issue" where
  "add_path p i = ZodIssue (code i) (p # path i) (message i)"

definition issues_at :: "path_elem \<Rightarrow> zod_issue list + jsval \<Rightarrow> zod_issue list" where
  "issues_at p r = (case r of Inl issues \<Rightarrow> map (add_path p) issues | Inr _ \<Rightarrow> [])"

fun parsed_values :: "(zod_issue list + 'a) list \<Rightarrow> 'a list option" where
  "parsed_values [] = Some []"
| "parsed_values (Inl issues # rs) = None"
| "parsed_values (Inr v # rs) = map_option ((#) v) (parsed_values rs)"

definition z_array :: "zod_type \<Rightarrow> zod_type" where
  "z_array element =
     \<lparr>typeName = ''ZodArray'',
      parse = (\<lambda>v. case v of
          JArr xs \<Rightarrow>
            (let rs = map (parse element) xs in
             case parsed_values rs of
               Some ys \<Rightarrow> Inr (JArr ys)
             | None \<Rightarrow> Inl (concat (map (\<lambda>(i, r). issues_at (Index i) r) (enumerate 0 rs))))
        | _ \<Rightarrow> Inl [invalid_type ''array'' v])\<rparr>"

definition z_record :: "zod_type \<Rightarrow> zod_type" where
  "z_record valueType =
     \<lparr>typeName = ''ZodRecord'',
      parse = (\<lambda>v. case v of
          JObj kvs \<Rightarrow>
            (let rs = map (\<lambda>(k, x). parse valueType x) kvs in
             case parsed_values rs of
               Some ys \<Rightarrow> Inr (JObj (zip (map fst kvs) ys))
             | None \<Rightarrow>
                 Inl (concat (map (\<lambda>(k, r). issues_at (Key k) r) (zip (map fst kvs) rs))))
        | _ \<Rightarrow> Inl [invalid_type ''object'' v])\<rparr>"

subsection \<open>The object schema \<^verbatim>\<open>z.object(shape)\<close>\<close>

text \<open>
  Parsing an object reads every key of the shape from the data, runs all the field
  parsers, and fails with the issues of all of them when one fails. Otherwise it builds a
  fresh object from the shape's keys alone (unknown keys are stripped): a key is set when
  its parsed value is not \<^verbatim>\<open>undefined\<close> or when the key is in the data.
\<close>

type_synonym pair = "string \<times> (zod_issue list + jsval) \<times> bool"

definition parse_pair :: "obj \<Rightarrow> string \<times> zod_type \<Rightarrow> pair" where
  "parse_pair data entry =
     (fst entry, parse (snd entry) (get_prop data (fst entry)), has_key data (fst entry))"

fun mergeObjectSync :: "obj \<Rightarrow> pair list \<Rightarrow> obj option" where
  "mergeObjectSync finalObject [] = Some finalObject"
| "mergeObjectSync finalObject ((key, value, alwaysSet) # pairs) =
     (case value of
        Inl issues \<Rightarrow> None
      | Inr v \<Rightarrow>
          mergeObjectSync
            (if v \<noteq> JUndefined \<or> alwaysSet then finalObject(key \<mapsto> v) else finalObject)
            pairs)"

definition z_object_parse :: "(string \<times> zod_type) list \<Rightarrow> obj \<Rightarrow> zod_issue list + obj" where
  "z_object_parse shape data =
     (let pairs = map (parse_pair data) shape in
      case mergeObjectSync Map.empty pairs of
        None \<Rightarrow> Inl (concat (map (\<lambda>(key, value, alwaysSet). issues_at (Key key) value) pairs))
      | Some finalObject \<Rightarrow> Inr finalObject)"

section \<open>The prompt base class\<close>

record field_schema =
  type :: zod_type
  description :: string
  required :: "bool option"
  default_v :: jsval

text \<open>
  \<^verbatim>\<open>required\<close> is \<^verbatim>\<open>true\<close>, \<^verbatim>\<open>false\<close> or unset; \<^verbatim>\<open>default_v\<close> is what reading
  \<^verbatim>\<open>schema.default\<close> gives, \<^verbatim>\<open>undefined\<close> when no default is declared. A schema is
  its entries in the order of \<^verbatim>\<open>Object.entries\<close>; as the keys of one object, the names
  are distinct. An object literal cannot declare a field named \<^verbatim>\<open>__proto__\<close>, so no
  schema has one.
\<close>

type_synonym schema = "(string \<times> field_schema) list"

record prompt_argument =
  arg_name :: string
  arg_description :: string
  arg_required :: bool

record prompt_definition =
  def_name :: string
  def_description :: string
  arguments :: "prompt_argument list"

definition promptDefinition :: "string \<Rightarrow> string \<Rightarrow> schema \<Rightarrow> prompt_definition" where
  "promptDefinition name descr schema =
     \<lparr>def_name = name,
      def_description = descr,
      arguments = map (\<lambda>(name, schema).
          \<lparr>arg_name = name,
           arg_description = description schema,
           arg_required =
             (if required schema \<noteq> Some False \<and> default_v schema = JUndefined
              then True else False)\<rparr>) schema\<rparr>"

definition apply_default :: "obj \<Rightarrow> string \<times> field_schema \<Rightarrow> obj" where
  \<comment> \<open>the body of the loop over the schema's entries\<close>
  "apply_default argsWithDefaults entry =
     (let key = fst entry; schema = snd entry in
      if \<not> has_key argsWithDefaults key then
        if default_v schema \<noteq> JUndefined then argsWithDefaults(key \<mapsto> default_v schema)
        else if required schema \<noteq> Some False then
          (let zodType = type schema in
           if typeName zodType = ''ZodString'' then argsWithDefaults(key \<mapsto> JStr [])
           else if typeName zodType = ''ZodBoolean'' then argsWithDefaults(key \<mapsto> JBool False)
           else if typeName zodType = ''ZodNumber'' then argsWithDefaults(key \<mapsto> JNum 0)
           else if typeName zodType = ''ZodArray'' then argsWithDefaults(key \<mapsto> JArr [])
           else if typeName zodType = ''ZodObject'' then argsWithDefaults(key \<mapsto> JObj [])
           else argsWithDefaults)
        else argsWithDefaults
      else argsWithDefaults)"

definition argsWithDefaults :: "schema \<Rightarrow> obj \<Rightarrow> obj" where
  \<comment> \<open>the copy of the arguments after the loop\<close>
  "argsWithDefaults schema args = foldl apply_default args schema"

definition isOptional_field :: "field_schema \<Rightarrow> bool" where
  \<comment> \<open>\<^verbatim>\<open>isOptional\<close> in the callback that builds the validation schema\<close>
  "isOptional_field schema =
     (required schema = Some False \<or> isOptional (type schema) \<or> default_v schema \<noteq> JUndefined)"

definition field_rule :: "field_schema \<Rightarrow> zod_type" where
  "field_rule schema =
     (if isOptional_field schema then optional (type schema) else type schema)"

definition schemaEntries :: "schema \<Rightarrow> (string \<times> zod_type) list" where
  "schemaEntries schema = map (\<lambda>(key, schema). (key, field_rule schema)) schema"

definition validatedArgs :: "schema \<Rightarrow> obj \<Rightarrow> error + obj" where
  \<comment> \<open>\<^verbatim>\<open>z.object(Object.fromEntries(schemaEntries)).parse(argsWithDefaults)\<close>\<close>
  "validatedArgs schema args =
     (case z_object_parse (schemaEntries schema) (argsWithDefaults schema args) of
        Inl issues \<Rightarrow> Inl (ZodError issues)
      | Inr v \<Rightarrow> Inr v)"

definition getMessages ::
  "(obj \<Rightarrow> error + 'm) \<Rightarrow> schema \<Rightarrow> obj option \<Rightarrow> error + 'm" where
  "getMessages generateMessages schema args_opt =
     (let args = (case args_opt of None \<Rightarrow> Map.empty | Some a \<Rightarrow> a) in
      case validatedArgs schema args of
        Inl e \<Rightarrow> Inl e
      | Inr v \<Rightarrow> generateMessages v)"

subsection \<open>The network helper\<close>

text \<open>
  The helper awaits the platform's \<^verbatim>\<open>fetch\<close>, which is a parameter here: it either
  rejects or yields a response, whose \<^verbatim>\<open>json()\<close> in turn either rejects or yields the
  parsed body.
\<close>

record 'a response =
  ok :: bool
  status :: nat
  json :: "error + 'a"

definition fetch ::
  "(string \<Rightarrow> 'i option \<Rightarrow> error + 'a response) \<Rightarrow> string \<Rightarrow> 'i option \<Rightarrow> error + 'a" where
  "fetch global_fetch url init =
     (case global_fetch url init of
        Inl e \<Rightarrow> Inl e
      | Inr response \<Rightarrow>
          if \<not> ok response
          then Inl (Error (''HTTP error! status: '' @ digits_of_nat (status response)))
          else json response)"

subsection \<open>The same pipeline on a store of objects\<close>

text \<open>
  Objects live in a store and are passed by reference, an address being an index into the
  store. \<^verbatim>\<open>{ ...args }\<close> allocates a new object holding the properties of the
  caller's, the loop assigns to the properties of that new object in place, and the
  parser allocates the object it returns. A reference always points into the store. The
  pipeline only reads property values, so they remain immutable trees.
\<close>

type_synonym heap = "obj list"

definition alloc :: "heap \<Rightarrow> obj \<Rightarrow> heap \<times> nat" where
  "alloc h ob = (h @ [ob], length h)"

definition assign_default :: "nat \<Rightarrow> heap \<Rightarrow> string \<times> field_schema \<Rightarrow> heap" where
  \<comment> \<open>one round of the loop, writing to the object at address \<open>r\<close>\<close>
  "assign_default r h entry = h[r := apply_default (h ! r) entry]"

definition validatedArgs_heap :: "schema \<Rightarrow> heap \<Rightarrow> nat \<Rightarrow> heap \<times> (error + nat)" where
  "validatedArgs_heap schema h args =
     (let (h1, r) = alloc h (h ! args);
          h2 = foldl (assign_default r) h1 schema in
      case z_object_parse (schemaEntries schema) (h2 ! r) of
        Inl issues \<Rightarrow> (h2, Inl (ZodError issues))
      | Inr finalObject \<Rightarrow> (let (h3, v) = alloc h2 finalObject in (h3, Inr v)))"

subsection \<open>The handlers of the test suite\<close>

definition TestPromptWithDefaults :: schema where
  "TestPromptWithDefaults =
     [(''message'', \<lparr>type = z_string, description = ''Test message'',
         required = None, default_v = JStr ''default message''\<rparr>),
      (''count'', \<lparr>type = z_number, description = ''Test count'',
         required = None, default_v = JNum 42\<rparr>),
      (''enabled'', \<lparr>type = z_boolean, description = ''Test boolean'',
         required = None, default_v = JBool True\<rparr>),
      (''tags'', \<lparr>type = z_array z_string, description = ''Test array'',
         required = None, default_v = JArr [JStr ''default'', JStr ''tag'']\<rparr>),
      (''metadata'', \<lparr>type = z_record z_any, description = ''Test object'',
         required = None, default_v = JObj [(''key'', JStr ''value'')]\<rparr>),
      (''optional'', \<lparr>type = optional z_string, description = ''Optional parameter'',
         required = Some False, default_v = JUndefined\<rparr>)]"

definition TestPromptWithoutDefaults :: schema where
  "TestPromptWithoutDefaults =
     [(''message'', \<lparr>type = z_string, description = ''Test message'',
         required = None, default_v = JUndefined\<rparr>),
      (''optional'', \<lparr>type = optional z_boolean, description = ''Optional parameter'',
         required = Some False, default_v = JUndefined\<rparr>)]"

definition TestPromptAllOptional :: schema where
  "TestPromptAllOptional =
     [(''message'', \<lparr>type = optional z_string, description = ''Optional message'',
         required = Some False, default_v = JUndefined\<rparr>),
      (''count'', \<lparr>type = optional z_number, description = ''Optional count'',
         required = Some False, default_v = JUndefined\<rparr>)]"

subsection \<open>Further schemas, used as inputs below\<close>

definition count_schema :: schema where
  \<comment> \<open>the \<^verbatim>\<open>count\<close> field of \<^verbatim>\<open>TestPromptWithDefaults\<close> alone\<close>
  "count_schema =
     [(''count'', \<lparr>type = z_number, description = ''Test count'',
         required = None, default_v = JNum 42\<rparr>)]"

definition note_schema :: schema where
  \<comment> \<open>\<^verbatim>\<open>{ note: { type: z.string().optional(), description: "A note" } }\<close>\<close>
  "note_schema =
     [(''note'', \<lparr>type = optional z_string, description = ''A note'',
         required = None, default_v = JUndefined\<rparr>)]"

definition flag_schema :: schema where
  \<comment> \<open>\<^verbatim>\<open>{ flag: { type: z.coerce.boolean(), description: "A flag" } }\<close>\<close>
  "flag_schema =
     [(''flag'', \<lparr>type = z_coerce_boolean, description = ''A flag'',
         required = None, default_v = JUndefined\<rparr>)]"

definition constructor_schema :: schema where
  \<comment> \<open>\<^verbatim>\<open>{ constructor: { type: z.number(), description: "A count", default: 5 } }\<close>\<close>
  "constructor_schema =
     [(''constructor'', \<lparr>type = z_number, description = ''A count'',
         required = None, default_v = JNum 5\<rparr>)]"

definition increment :: "jsval \<Rightarrow> jsval" where
  \<comment> \<open>\<^verbatim>\<open>n => n + 1\<close> on the numbers the model has\<close>
  "increment v = (case v of JNum n \<Rightarrow> JNum (n + 1) | _ \<Rightarrow> v)"

definition step_schema :: schema where
  \<comment> \<open>\<^verbatim>\<open>{ step: { type: z.number().transform(n => n + 1), description: "A step" } }\<close>\<close>
  "step_schema =
     [(''step'', \<lparr>type = transform z_number increment, description = ''A step'',
         required = None, default_v = JUndefined\<rparr>)]"

section \<open>Properties of the field parsers\<close>

definition idempotent :: "zod_type \<Rightarrow> bool" where
  \<comment> \<open>parsing a value the parser returned gives that value back\<close>
  "idempotent t = (\<forall>v w. parse t v = Inr w \<longrightarrow> parse t w = Inr w)"

section \<open>Auxiliary facts\<close>

subsection \<open>The loop that applies the defaults\<close>

lemma apply_default_present:
  "a k \<noteq> None \<Longrightarrow> apply_default a e k = a k"
  by (auto simp: apply_default_def Let_def has_key_def)

lemma apply_default_other:
  "k \<noteq> fst e \<Longrightarrow> apply_default a e k = a k"
  by (simp add: apply_default_def Let_def)

lemma apply_default_absent:
  "a k = None \<Longrightarrow> apply_default a (k, fs) k = apply_default Map.empty (k, fs) k"
  by (simp add: apply_default_def Let_def has_key_def)

lemma apply_default_agree:
  assumes "a (fst e) = a' (fst e)" "a k = a' k"
  shows "apply_default a e k = apply_default a' e k"
proof (cases "k = fst e")
  case False
  then show ?thesis using assms(2) by (simp add: apply_default_other)
next
  case True
  obtain fs where e: "e = (k, fs)" using True by (cases e) simp
  show ?thesis
  proof (cases "a k")
    case None
    then have "a' k = None" using assms(2) by simp
    then have "apply_default a' (k, fs) k = apply_default Map.empty (k, fs) k"
      by (rule apply_default_absent)
    moreover have "apply_default a (k, fs) k = apply_default Map.empty (k, fs) k"
      using None by (rule apply_default_absent)
    ultimately show ?thesis unfolding e by simp
  next
    case (Some v)
    then have "a k \<noteq> None" "a' k \<noteq> None" using assms(2) by simp_all
    then have "apply_default a e k = a k" "apply_default a' e k = a' k"
      by (simp_all add: apply_default_present)
    then show ?thesis using assms(2) by simp
  qed
qed

lemma argsWithDefaults_present:
  "a k \<noteq> None \<Longrightarrow> argsWithDefaults schema a k = a k"
  unfolding argsWithDefaults_def
proof (induction schema arbitrary: a)
  case Nil
  then show ?case by simp
next
  case (Cons e schema)
  have "apply_default a e k = a k" using Cons.prems by (rule apply_default_present)
  with Cons show ?case by simp
qed

lemma argsWithDefaults_other:
  "k \<notin> fst ` set schema \<Longrightarrow> argsWithDefaults schema a k = a k"
  unfolding argsWithDefaults_def
  by (induction schema arbitrary: a) (auto simp: apply_default_other)

lemma argsWithDefaults_absent:
  assumes "distinct (map fst schema)" "(k, fs) \<in> set schema" "a k = None"
  shows "argsWithDefaults schema a k = apply_default Map.empty (k, fs) k"
  using assms unfolding argsWithDefaults_def
proof (induction schema arbitrary: a)
  case Nil
  then show ?case by simp
next
  case (Cons e schema)
  show ?case
  proof (cases "e = (k, fs)")
    case True
    then have "k \<notin> fst ` set schema" using Cons.prems(1) by auto
    then have "foldl apply_default (apply_default a e) schema k = apply_default a e k"
      using argsWithDefaults_other [of k schema] by (simp add: argsWithDefaults_def)
    also have "\<dots> = apply_default Map.empty (k, fs) k"
      unfolding True using Cons.prems(3) by (rule apply_default_absent)
    finally show ?thesis by simp
  next
    case False
    then have in_rest: "(k, fs) \<in> set schema" using Cons.prems(2) by simp
    then have "k \<in> fst ` set schema" by (rule image_eqI [rotated]) simp
    moreover have "fst e \<notin> fst ` set schema" using Cons.prems(1) by simp
    ultimately have "k \<noteq> fst e" by blast
    then have "apply_default a e k = None" using Cons.prems(3) by (simp add: apply_default_other)
    then show ?thesis using Cons.IH [of "apply_default a e"] Cons.prems(1) in_rest by simp
  qed
qed

lemma argsWithDefaults_agree:
  assumes "\<forall>k \<in> K. a k = a' k" and "fst ` set schema \<subseteq> K" and "k \<in> K"
  shows "argsWithDefaults schema a k = argsWithDefaults schema a' k"
  using assms unfolding argsWithDefaults_def
proof (induction schema arbitrary: a a')
  case Nil
  then show ?case by simp
next
  case (Cons e schema)
  have "fst e \<in> K" using Cons.prems(2) by simp
  then have "\<forall>k \<in> K. apply_default a e k = apply_default a' e k"
    using Cons.prems(1) by (blast intro: apply_default_agree)
  moreover have "fst ` set schema \<subseteq> K" using Cons.prems(2) by simp
  ultimately show ?case using Cons.IH Cons.prems(3) by simp
qed

lemma absent_iff: "\<not> has_key a k \<longleftrightarrow> a k = None \<and> k \<notin> set Object_prototype"
  by (simp add: has_key_def)

lemma own_key: "a k \<noteq> None \<Longrightarrow> has_key a k"
  by (simp add: has_key_def)

lemma apply_default_has_key:
  "has_key a k \<Longrightarrow> apply_default a e k = a k"
  by (cases "k = fst e") (simp_all add: apply_default_def Let_def)

lemma argsWithDefaults_has_key:
  "has_key a k \<Longrightarrow> argsWithDefaults schema a k = a k"
  unfolding argsWithDefaults_def
proof (induction schema arbitrary: a)
  case Nil
  then show ?case by simp
next
  case (Cons e schema)
  have same: "apply_default a e k = a k" using Cons.prems by (rule apply_default_has_key)
  then have "has_key (apply_default a e) k" using Cons.prems by (simp add: has_key_def)
  from Cons.IH [OF this] same show ?case by simp
qed

lemma absent_default:
  "k \<notin> set Object_prototype \<Longrightarrow>
   apply_default Map.empty (k, fs) k =
     (if default_v fs \<noteq> JUndefined then Some (default_v fs)
      else if required fs = Some False then None
      else if typeName (type fs) = ''ZodString'' then Some (JStr [])
      else if typeName (type fs) = ''ZodBoolean'' then Some (JBool False)
      else if typeName (type fs) = ''ZodNumber'' then Some (JNum 0)
      else if typeName (type fs) = ''ZodArray'' then Some (JArr [])
      else if typeName (type fs) = ''ZodObject'' then Some (JObj [])
      else None)"
  by (simp add: apply_default_def has_key_def Let_def)

lemma get_prop_absent:
  "a k = None \<Longrightarrow> k \<notin> set Object_prototype \<Longrightarrow> get_prop a k = JUndefined"
  by (simp add: get_prop_def)

lemma get_prop_own: "a k = Some v \<Longrightarrow> get_prop a k = v"
  by (simp add: get_prop_def)

subsection \<open>Parsing an object\<close>

lemma mergeObjectSync_None_iff:
  "mergeObjectSync acc pairs = None \<longleftrightarrow> (\<exists>p \<in> set pairs. \<exists>i. fst (snd p) = Inl i)"
  by (induction acc pairs rule: mergeObjectSync.induct) (auto split: sum.splits)

lemma mergeObjectSync_other:
  "mergeObjectSync acc pairs = Some y \<Longrightarrow> k \<notin> fst ` set pairs \<Longrightarrow> y k = acc k"
  by (induction acc pairs arbitrary: y rule: mergeObjectSync.induct) (auto split: sum.splits if_splits)

lemma mergeObjectSync_key:
  "mergeObjectSync acc pairs = Some y \<Longrightarrow> distinct (map fst pairs) \<Longrightarrow>
   (k, Inr v, b) \<in> set pairs \<Longrightarrow> acc k = None \<Longrightarrow>
   y k = (if v \<noteq> JUndefined \<or> b then Some v else None)"
proof (induction acc pairs arbitrary: y rule: mergeObjectSync.induct)
  case (1 finalObject)
  then show ?case by simp
next
  case (2 finalObject key "value" alwaysSet pairs)
  from "2.prems"(1) obtain w where w: "value = Inr w" by (cases "value") auto
  let ?acc = "if w \<noteq> JUndefined \<or> alwaysSet then finalObject(key \<mapsto> w) else finalObject"
  have rest: "mergeObjectSync ?acc pairs = Some y" using "2.prems"(1) w by simp
  show ?case
  proof (cases "(k, Inr v, b) = (key, value, alwaysSet)")
    case True
    then have "k \<notin> fst ` set pairs" using "2.prems"(2) by auto
    then have "y k = ?acc k" using rest by (rule mergeObjectSync_other [rotated])
    then show ?thesis using True w "2.prems"(4) by auto
  next
    case False
    then have mem: "(k, Inr v, b) \<in> set pairs" using "2.prems"(3) by auto
    then have "k \<in> fst ` set pairs" by (rule image_eqI [rotated]) simp
    moreover have "key \<notin> fst ` set pairs" using "2.prems"(2) by simp
    ultimately have "k \<noteq> key" by blast
    then have "?acc k = None" using "2.prems"(4) by simp
    then show ?thesis using "2.IH" [OF w rest] "2.prems"(2) mem by simp
  qed
qed

lemma fst_parse_pair: "map fst (map (parse_pair data) shape) = map fst shape"
  by (induction shape) (simp_all add: parse_pair_def)

lemma parse_pair_mem:
  "(k, t) \<in> set shape \<Longrightarrow>
   (k, parse t (get_prop data k), has_key data k) \<in> set (map (parse_pair data) shape)"
proof -
  assume "(k, t) \<in> set shape"
  then have "parse_pair data (k, t) \<in> parse_pair data ` set shape" by (rule imageI)
  then show ?thesis by (simp add: parse_pair_def)
qed

lemma z_object_parse_fails:
  assumes "(k, t) \<in> set shape" "parse t (get_prop data k) = Inl issues"
  shows "\<exists>is. z_object_parse shape data = Inl is \<and> set (map (add_path (Key k)) issues) \<subseteq> set is"
proof -
  let ?pairs = "map (parse_pair data) shape"
  let ?f = "\<lambda>(key, value, alwaysSet). issues_at (Key key) value"
  let ?p = "(k, Inl issues :: zod_issue list + jsval, has_key data k)"
  have mem: "?p \<in> set ?pairs"
    using parse_pair_mem [OF assms(1), of data] assms(2) by simp
  have "fst (snd ?p) = Inl issues" by simp
  with mem have none: "mergeObjectSync Map.empty ?pairs = None"
    unfolding mergeObjectSync_None_iff by blast
  have "?f ?p \<in> set (map ?f ?pairs)" using mem by (simp only: set_map) (rule imageI)
  then have "set (?f ?p) \<subseteq> set (concat (map ?f ?pairs))" by (simp only: set_concat) blast
  moreover have "?f ?p = map (add_path (Key k)) issues" by (simp add: issues_at_def)
  ultimately have "set (map (add_path (Key k)) issues) \<subseteq> set (concat (map ?f ?pairs))" by simp
  with none show ?thesis by (simp add: z_object_parse_def Let_def)
qed

lemma z_object_parse_succeeds:
  assumes "\<And>k t. (k, t) \<in> set shape \<Longrightarrow> \<exists>v. parse t (get_prop data k) = Inr v"
  shows "\<exists>y. z_object_parse shape data = Inr y"
proof -
  let ?pairs = "map (parse_pair data) shape"
  have "\<not> (\<exists>p \<in> set ?pairs. \<exists>i. fst (snd p) = Inl i)"
  proof
    assume "\<exists>p \<in> set ?pairs. \<exists>i. fst (snd p) = Inl i"
    then obtain e i where e: "e \<in> set shape" and i: "fst (snd (parse_pair data e)) = Inl i"
      by auto
    obtain k t where kt: "e = (k, t)" by (cases e)
    from assms [of k t] e kt obtain v where "parse t (get_prop data k) = Inr v" by blast
    with i kt show False by (simp add: parse_pair_def)
  qed
  then have "mergeObjectSync Map.empty ?pairs \<noteq> None"
    unfolding mergeObjectSync_None_iff .
  then show ?thesis by (auto simp: z_object_parse_def Let_def)
qed

lemma z_object_parse_Some:
  "z_object_parse shape data = Inr y \<Longrightarrow>
   mergeObjectSync Map.empty (map (parse_pair data) shape) = Some y"
  by (simp add: z_object_parse_def Let_def split: option.splits)

lemma z_object_parse_field:
  assumes "z_object_parse shape data = Inr y" "distinct (map fst shape)" "(k, t) \<in> set shape"
  shows "\<exists>v. parse t (get_prop data k) = Inr v
           \<and> y k = (if v \<noteq> JUndefined \<or> has_key data k then Some v else None)"
proof -
  let ?pairs = "map (parse_pair data) shape"
  have m: "mergeObjectSync Map.empty ?pairs = Some y"
    using assms(1) by (rule z_object_parse_Some)
  then have "mergeObjectSync Map.empty ?pairs \<noteq> None" by simp
  then have all: "\<forall>p \<in> set ?pairs. \<forall>i. fst (snd p) \<noteq> Inl i"
    unfolding mergeObjectSync_None_iff by blast
  have mem: "(k, parse t (get_prop data k), has_key data k) \<in> set ?pairs"
    using assms(3) by (rule parse_pair_mem)
  with all have "\<forall>i. fst (snd (k, parse t (get_prop data k), has_key data k)) \<noteq> Inl i"
    by blast
  then obtain v where v: "parse t (get_prop data k) = Inr v"
    by (cases "parse t (get_prop data k)") simp_all
  have d: "distinct (map fst ?pairs)" using assms(2) by (simp only: fst_parse_pair)
  have mem': "(k, Inr v, has_key data k) \<in> set ?pairs" using mem v by simp
  have "y k = (if v \<noteq> JUndefined \<or> has_key data k then Some v else None)"
    using m d mem' by (rule mergeObjectSync_key) simp
  with v show ?thesis by blast
qed

lemma z_object_parse_other:
  assumes "z_object_parse shape data = Inr y" "k \<notin> fst ` set shape"
  shows "y k = None"
proof -
  let ?pairs = "map (parse_pair data) shape"
  have m: "mergeObjectSync Map.empty ?pairs = Some y"
    using assms(1) by (rule z_object_parse_Some)
  have "fst ` set ?pairs = fst ` set shape"
    using fst_parse_pair [of data shape] by (metis list.set_map)
  then have "k \<notin> fst ` set ?pairs" using assms(2) by simp
  then show ?thesis using mergeObjectSync_other [OF m] by simp
qed

lemma z_object_parse_agree:
  assumes "\<forall>k \<in> fst ` set shape. data k = data' k"
  shows "z_object_parse shape data = z_object_parse shape data'"
proof -
  have "map (parse_pair data) shape = map (parse_pair data') shape"
  proof (rule map_cong [OF refl])
    fix e assume "e \<in> set shape"
    then have "data (fst e) = data' (fst e)" using assms by simp
    then show "parse_pair data e = parse_pair data' e"
      by (simp add: parse_pair_def get_prop_def has_key_def)
  qed
  then show ?thesis by (simp only: z_object_parse_def)
qed

lemma z_object_parse_issue:
  assumes "z_object_parse shape data = Inl is" and "i \<in> set is"
  shows "\<exists>k t issues i0. (k, t) \<in> set shape \<and> parse t (get_prop data k) = Inl issues
           \<and> i0 \<in> set issues \<and> i = add_path (Key k) i0"
proof -
  let ?pairs = "map (parse_pair data) shape"
  let ?f = "\<lambda>(key, value, alwaysSet). issues_at (Key key) value"
  from assms(1) have "is = concat (map ?f ?pairs)"
    by (simp add: z_object_parse_def Let_def split: option.splits)
  with assms(2) have "i \<in> (\<Union>e \<in> set shape. set (?f (parse_pair data e)))"
    by (simp only: set_concat set_map image_image)
  then obtain e where e: "e \<in> set shape" and i: "i \<in> set (?f (parse_pair data e))"
    by blast
  obtain k t where kt: "e = (k, t)" by (cases e)
  from i kt have "i \<in> set (issues_at (Key k) (parse t (get_prop data k)))"
    by (simp add: parse_pair_def)
  then obtain issues i0 where "parse t (get_prop data k) = Inl issues"
    and "i0 \<in> set issues" and "i = add_path (Key k) i0"
    by (cases "parse t (get_prop data k)") (auto simp: issues_at_def)
  with e kt show ?thesis by blast
qed

subsection \<open>The validation schema of a prompt\<close>

lemma schemaEntries_mem:
  "(k, fs) \<in> set schema \<Longrightarrow> (k, field_rule fs) \<in> set (schemaEntries schema)"
  unfolding schemaEntries_def by (force simp: image_iff)

lemma fst_schemaEntries: "map fst (schemaEntries schema) = map fst schema"
  unfolding schemaEntries_def by (induction schema) auto

lemma validatedArgs_Inr:
  "validatedArgs schema args = Inr y \<longleftrightarrow>
   z_object_parse (schemaEntries schema) (argsWithDefaults schema args) = Inr y"
  by (simp add: validatedArgs_def split: sum.splits)

lemma validatedArgs_fails:
  assumes "(k, fs) \<in> set schema"
    and "parse (field_rule fs) (get_prop (argsWithDefaults schema args) k) = Inl issues"
  shows "\<exists>is. validatedArgs schema args = Inl (ZodError is)
           \<and> set (map (add_path (Key k)) issues) \<subseteq> set is"
proof -
  have "(k, field_rule fs) \<in> set (schemaEntries schema)"
    using assms(1) by (rule schemaEntries_mem)
  from z_object_parse_fails [OF this assms(2)] show ?thesis
    by (auto simp: validatedArgs_def)
qed

lemma optional_rule_accepts_undefined:
  "isOptional_field fs \<Longrightarrow> parse (field_rule fs) JUndefined = Inr JUndefined"
  by (simp add: field_rule_def optional_def)

lemma accepted_field_has_no_issue:
  assumes d: "distinct (map fst schema)" and mem: "(k, fs) \<in> set schema"
    and ok: "parse (field_rule fs) (get_prop (argsWithDefaults schema args) k) = Inr v"
    and fails: "validatedArgs schema args = Inl (ZodError is)" and i: "i \<in> set is"
  shows "path i \<noteq> Key k # p"
proof
  assume p: "path i = Key k # p"
  from fails have "z_object_parse (schemaEntries schema) (argsWithDefaults schema args) = Inl is"
    by (simp add: validatedArgs_def split: sum.splits)
  from z_object_parse_issue [OF this i] obtain k' t issues i0
    where e: "(k', t) \<in> set (schemaEntries schema)"
      and bad: "parse t (get_prop (argsWithDefaults schema args) k') = Inl issues"
      and i0: "i = add_path (Key k') i0" by blast
  from i0 p have "k' = k" by (simp add: add_path_def)
  have ds: "distinct (map fst (schemaEntries schema))" using d by (simp only: fst_schemaEntries)
  have "t = field_rule fs"
    using eq_key_imp_eq_value [OF ds e [unfolded \<open>k' = k\<close>] schemaEntries_mem [OF mem]] .
  with bad ok \<open>k' = k\<close> show False by simp
qed

lemma getMessages_Some:
  "getMessages generateMessages schema (Some args) =
     (case validatedArgs schema args of Inl e \<Rightarrow> Inl e | Inr v \<Rightarrow> generateMessages v)"
  by (simp add: getMessages_def)

lemma getMessages_None:
  "getMessages generateMessages schema None = getMessages generateMessages schema (Some Map.empty)"
  by (simp add: getMessages_def)

lemma arg_required_flags:
  "map arg_required (arguments (promptDefinition name descr schema)) =
     map (\<lambda>(key, fs). \<not> (required fs = Some False \<or> default_v fs \<noteq> JUndefined)) schema"
  by (simp add: promptDefinition_def case_prod_unfold)

lemma reported_optional_is_optional:
  "required fs = Some False \<or> default_v fs \<noteq> JUndefined \<Longrightarrow> isOptional_field fs"
  by (auto simp: isOptional_field_def)

subsection \<open>Parsers that return their own output unchanged\<close>

lemma idempotent_primitive: "idempotent (primitive tag expected)"
  by (auto simp: idempotent_def primitive_def split: if_splits)

lemma idempotent_optional: "idempotent t \<Longrightarrow> idempotent (optional t)"
  unfolding idempotent_def optional_def by (auto split: if_splits)

lemma idempotent_z_any: "idempotent z_any"
  by (simp add: idempotent_def z_any_def)

lemma parsed_values_length: "parsed_values rs = Some ys \<Longrightarrow> length ys = length rs"
  by (induction rs arbitrary: ys rule: parsed_values.induct) auto

lemma parsed_values_again:
  assumes "idempotent t"
  shows "parsed_values (map (parse t) xs) = Some ys \<Longrightarrow> parsed_values (map (parse t) ys) = Some ys"
proof (induction xs arbitrary: ys)
  case Nil
  then show ?case by simp
next
  case (Cons x xs)
  from Cons.prems obtain v ys' where v: "parse t x = Inr v"
    and rest: "parsed_values (map (parse t) xs) = Some ys'" and ys: "ys = v # ys'"
    by (cases "parse t x") auto
  have "parse t v = Inr v" using assms v by (auto simp: idempotent_def)
  with Cons.IH [OF rest] ys show ?case by simp
qed

lemma idempotent_z_array:
  assumes "idempotent t"
  shows "idempotent (z_array t)"
  unfolding idempotent_def
proof (intro allI impI)
  fix v w assume p: "parse (z_array t) v = Inr w"
  then obtain xs where v: "v = JArr xs"
    by (cases v) (simp_all add: z_array_def)
  from p v obtain ys where ys: "parsed_values (map (parse t) xs) = Some ys" and w: "w = JArr ys"
    by (auto simp: z_array_def Let_def split: option.splits)
  from parsed_values_again [OF assms ys] w show "parse (z_array t) w = Inr w"
    by (simp add: z_array_def)
qed

lemma map_values_zip:
  "length ks = length ys \<Longrightarrow> map (\<lambda>(k, x). f x) (zip ks ys) = map f ys"
  by (induction ks ys rule: list_induct2) auto

lemma map_values_snd: "map (\<lambda>(k, x). f x) kvs = map f (map snd kvs)"
  by (induction kvs) auto

lemma idempotent_z_record:
  assumes "idempotent t"
  shows "idempotent (z_record t)"
  unfolding idempotent_def
proof (intro allI impI)
  fix v w assume p: "parse (z_record t) v = Inr w"
  then obtain kvs where v: "v = JObj kvs"
    by (cases v) (simp_all add: z_record_def)
  from p v obtain ys where ys': "parsed_values (map (\<lambda>(k, x). parse t x) kvs) = Some ys"
    and w: "w = JObj (zip (map fst kvs) ys)"
    by (auto simp: z_record_def Let_def split: option.splits)
  from ys' have ys: "parsed_values (map (parse t) (map snd kvs)) = Some ys"
    by (simp only: map_values_snd)
  have len: "length (map fst kvs) = length ys" using parsed_values_length [OF ys] by simp
  have again: "parsed_values (map (parse t) ys) = Some ys"
    using parsed_values_again [OF assms ys] .
  have f: "map fst (zip (map fst kvs) ys) = map fst kvs" using len by simp
  have "parse (z_record t) (JObj (zip (map fst kvs) ys)) = Inr (JObj (zip (map fst kvs) ys))"
    by (simp add: z_record_def Let_def map_values_zip [OF len] again f del: map_map)
  then show "parse (z_record t) w = Inr w" unfolding w .
qed

lemma idempotent_field_rule:
  assumes "idempotent (type fs)"
  shows "idempotent (field_rule fs)"
  using assms unfolding idempotent_def field_rule_def optional_def
  by (auto split: if_splits)

lemma fixtures_idempotent:
  "\<forall>(k, fs) \<in> set TestPromptWithDefaults \<union> set TestPromptWithoutDefaults \<union> set TestPromptAllOptional.
     idempotent (type fs)"
  by (simp add: TestPromptWithDefaults_def TestPromptWithoutDefaults_def TestPromptAllOptional_def
      z_string_def z_number_def z_boolean_def idempotent_primitive idempotent_optional
      idempotent_z_array idempotent_z_record idempotent_z_any)

subsection \<open>The store\<close>

lemma foldl_assign_default:
  "foldl (assign_default (length h)) (h @ [ob]) schema = h @ [foldl apply_default ob schema]"
  by (induction schema arbitrary: ob) (simp_all add: assign_default_def)

subsection \<open>Unfolding the model on concrete inputs\<close>

lemmas fixture_defs =
  TestPromptWithDefaults_def TestPromptWithoutDefaults_def TestPromptAllOptional_def
  count_schema_def note_schema_def flag_schema_def constructor_schema_def step_schema_def

lemmas model_defs =
  validatedArgs_def z_object_parse_def argsWithDefaults_def schemaEntries_def field_rule_def
  isOptional_field_def isOptional_def optional_def apply_default_def parse_pair_def
  has_key_def get_prop_def Object_prototype_def inherited_member_def issues_at_def add_path_def

lemmas type_defs =
  z_string_def z_number_def z_boolean_def z_any_def z_coerce_boolean_def z_array_def
  z_record_def primitive_def transform_def invalid_type_def increment_def

section \<open>The claims\<close>

subsection \<open>C1: the reported \<^verbatim>\<open>required\<close> flag and the optionality used for validation\<close>

text \<open>
  C1 asks that \<^verbatim>\<open>promptDefinition\<close> report \<^verbatim>\<open>required = false\<close> for a field exactly
  when the validation schema of \<^verbatim>\<open>getMessages\<close> treats the field as optional. The two
  tests differ: \<^verbatim>\<open>promptDefinition\<close> looks at \<^verbatim>\<open>required\<close> and \<^verbatim>\<open>default\<close>
  only, \<^verbatim>\<open>getMessages\<close> also at \<^verbatim>\<open>type.isOptional()\<close>. For a field declared
  \<^verbatim>\<open>z.string().optional()\<close> with neither \<^verbatim>\<open>required\<close> nor \<^verbatim>\<open>default\<close>, the
  definition reports \<^verbatim>\<open>required = true\<close>, while the field counts as optional for
  validation and a call without arguments is accepted with the field absent. (The
  lemmas \<open>arg_required_flags\<close> and \<open>reported_optional_is_optional\<close> give the
  direction that does hold: a field reported as not required is optional for validation.)
\<close>

theorem promptDefinition_misses_type_optionality:
  "map arg_required (arguments (promptDefinition ''note-prompt'' ''A prompt'' note_schema)) = [True]
   \<and> map (isOptional_field \<circ> snd) note_schema = [True]
   \<and> validatedArgs note_schema Map.empty = Inr Map.empty"
  by (simp add: promptDefinition_def fixture_defs model_defs type_defs)

subsection \<open>C2: optional fields without a default stay absent\<close>

text \<open>
  C2, as the code has it: a field that has no default, is not a key of the arguments and
  whose name no object inherits stays absent after the loop, its validation rule accepts
  the absence, a successful validation returns an object without it and a failed one
  reports no issue under the field's name, provided that \<^verbatim>\<open>required\<close> is
  \<^verbatim>\<open>false\<close>, or that the type is optional and its tag is none of the five tags for
  which the loop writes a placeholder. Every \<^verbatim>\<open>optional()\<close> wrapper is of the second
  kind.
\<close>

theorem optional_field_left_absent:
  assumes "distinct (map fst schema)" and "(k, fs) \<in> set schema"
    and "args k = None" and "k \<notin> set Object_prototype" and "default_v fs = JUndefined"
    and "required fs = Some False \<or>
         (isOptional (type fs) \<and> typeName (type fs) \<notin>
            {''ZodString'', ''ZodBoolean'', ''ZodNumber'', ''ZodArray'', ''ZodObject''})"
  shows "argsWithDefaults schema args k = None \<and>
         parse (field_rule fs) (get_prop (argsWithDefaults schema args) k) = Inr JUndefined \<and>
         (\<forall>y. validatedArgs schema args = Inr y \<longrightarrow> y k = None) \<and>
         (\<forall>is i p. validatedArgs schema args = Inl (ZodError is) \<longrightarrow> i \<in> set is \<longrightarrow>
            path i \<noteq> Key k # p)"
proof -
  have "argsWithDefaults schema args k = apply_default Map.empty (k, fs) k"
    using assms(1,2,3) by (rule argsWithDefaults_absent)
  also have "\<dots> = None"
    using assms(5,6) by (auto simp: absent_default [OF assms(4)])
  finally have absent: "argsWithDefaults schema args k = None" .
  then have undef: "get_prop (argsWithDefaults schema args) k = JUndefined"
    using assms(4) by (rule get_prop_absent)
  have "isOptional_field fs" using assms(6) by (auto simp: isOptional_field_def)
  then have accepts: "parse (field_rule fs) (get_prop (argsWithDefaults schema args) k) = Inr JUndefined"
    unfolding undef by (rule optional_rule_accepts_undefined)
  have unseen: "\<not> has_key (argsWithDefaults schema args) k"
    using absent assms(4) by (simp add: absent_iff)
  have typed: "y k = None" if "validatedArgs schema args = Inr y" for y
  proof -
    from that have p: "z_object_parse (schemaEntries schema) (argsWithDefaults schema args) = Inr y"
      by (simp add: validatedArgs_Inr)
    have d: "distinct (map fst (schemaEntries schema))"
      using assms(1) by (simp only: fst_schemaEntries)
    from z_object_parse_field [OF p d schemaEntries_mem [OF assms(2)]] accepts unseen
    show ?thesis by simp
  qed
  have "path i \<noteq> Key k # p"
    if "validatedArgs schema args = Inl (ZodError is)" and "i \<in> set is" for "is" i p
    using assms(1,2) accepts that by (rule accepted_field_has_no_issue)
  with absent accepts typed show ?thesis by blast
qed

text \<open>
  C2, witness: the \<^verbatim>\<open>optional\<close> field of \<^verbatim>\<open>TestPromptWithoutDefaults\<close> when only
  \<^verbatim>\<open>message\<close> is supplied, and a field of type \<^verbatim>\<open>z.string().optional()\<close> whose
  \<^verbatim>\<open>required\<close> is unset.
\<close>

theorem optional_field_left_absent_witness:
  "distinct (map fst TestPromptWithoutDefaults)
   \<and> (''optional'', \<lparr>type = optional z_boolean, description = ''Optional parameter'',
         required = Some False, default_v = JUndefined\<rparr>) \<in> set TestPromptWithoutDefaults
   \<and> [''message'' \<mapsto> JStr ''x''] ''optional'' = None
   \<and> ''optional'' \<notin> set Object_prototype
   \<and> argsWithDefaults TestPromptWithoutDefaults [''message'' \<mapsto> JStr ''x''] ''optional'' = None
   \<and> validatedArgs TestPromptWithoutDefaults [''message'' \<mapsto> JStr ''x'']
       = Inr [''message'' \<mapsto> JStr ''x'']
   \<and> isOptional (optional z_string)
   \<and> ''note'' \<notin> set Object_prototype
   \<and> argsWithDefaults note_schema Map.empty ''note'' = None"
proof -
  have v: "validatedArgs TestPromptWithoutDefaults [''message'' \<mapsto> JStr ''x'']
             = Inr [''message'' \<mapsto> JStr ''x'']"
    by (simp add: fixture_defs model_defs type_defs)
  show ?thesis
    using v optional_field_left_absent
      [of TestPromptWithoutDefaults "''optional''"
          "\<lparr>type = optional z_boolean, description = ''Optional parameter'',
            required = Some False, default_v = JUndefined\<rparr>" "[''message'' \<mapsto> JStr ''x'']"]
      optional_field_left_absent
      [of note_schema "''note''"
          "\<lparr>type = optional z_string, description = ''A note'',
            required = None, default_v = JUndefined\<rparr>" Map.empty]
    by (simp add: fixture_defs type_defs isOptional_def optional_def Object_prototype_def)
qed

text \<open>
  C2, counterexample to the claim as stated: the loop never asks whether the type is
  optional, it compares the tag. \<^verbatim>\<open>z.coerce.boolean()\<close> accepts \<^verbatim>\<open>undefined\<close>, so
  \<^verbatim>\<open>isOptional()\<close> holds, and its tag is \<^verbatim>\<open>ZodBoolean\<close>: the absent field is set to
  \<^verbatim>\<open>false\<close>.
\<close>

theorem coerced_boolean_gets_placeholder:
  "\<not> has_key Map.empty ''flag''
   \<and> map (\<lambda>(key, schema). (key, default_v schema, required schema,
                              isOptional (type schema))) flag_schema
       = [(''flag'', JUndefined, None, True)]
   \<and> argsWithDefaults flag_schema Map.empty ''flag'' = Some (JBool False)"
  by (simp add: fixture_defs model_defs type_defs)

subsection \<open>C3: placeholders for required fields without a default\<close>

text \<open>
  C3, as the code has it, record types apart: for a field that has no default, is not a
  key of the arguments, whose name no object inherits and whose \<^verbatim>\<open>required\<close> is not
  \<^verbatim>\<open>false\<close>, the loop writes the empty string for the tag \<^verbatim>\<open>ZodString\<close>,
  \<^verbatim>\<open>false\<close> for \<^verbatim>\<open>ZodBoolean\<close>, \<^verbatim>\<open>0\<close> for \<^verbatim>\<open>ZodNumber\<close>, the empty array for
  \<^verbatim>\<open>ZodArray\<close> and the empty object for \<^verbatim>\<open>ZodObject\<close>. For every tag other than
  these and \<^verbatim>\<open>ZodRecord\<close> the field stays absent, and whenever the declared type
  rejects \<^verbatim>\<open>undefined\<close>, validation then fails, reporting the type's issues under the
  field's name, and \<^verbatim>\<open>getMessages\<close> fails with it.
\<close>

theorem sensible_default_by_type_tag:
  assumes "distinct (map fst schema)" and "(k, fs) \<in> set schema"
    and "args k = None" and "k \<notin> set Object_prototype"
    and "default_v fs = JUndefined" and "required fs \<noteq> Some False"
  shows "(typeName (type fs) = ''ZodString'' \<longrightarrow>
            argsWithDefaults schema args k = Some (JStr [])) \<and>
         (typeName (type fs) = ''ZodBoolean'' \<longrightarrow>
            argsWithDefaults schema args k = Some (JBool False)) \<and>
         (typeName (type fs) = ''ZodNumber'' \<longrightarrow>
            argsWithDefaults schema args k = Some (JNum 0)) \<and>
         (typeName (type fs) = ''ZodArray'' \<longrightarrow>
            argsWithDefaults schema args k = Some (JArr [])) \<and>
         (typeName (type fs) = ''ZodObject'' \<longrightarrow>
            argsWithDefaults schema args k = Some (JObj [])) \<and>
         (typeName (type fs) \<notin>
            {''ZodString'', ''ZodBoolean'', ''ZodNumber'', ''ZodArray'', ''ZodObject'',
             ''ZodRecord''} \<longrightarrow>
            argsWithDefaults schema args k = None \<and>
            (\<not> isOptional (type fs) \<longrightarrow>
               (\<exists>issues is.
                  parse (type fs) JUndefined = Inl issues \<and>
                  validatedArgs schema args = Inl (ZodError is) \<and>
                  set (map (add_path (Key k)) issues) \<subseteq> set is \<and>
                  getMessages generateMessages schema (Some args) = Inl (ZodError is))))"
proof -
  let ?fails = "\<exists>issues is.
      parse (type fs) JUndefined = Inl issues \<and>
      validatedArgs schema args = Inl (ZodError is) \<and>
      set (map (add_path (Key k)) issues) \<subseteq> set is \<and>
      getMessages generateMessages schema (Some args) = Inl (ZodError is)"
  let ?other = "typeName (type fs) \<notin>
       {''ZodString'', ''ZodBoolean'', ''ZodNumber'', ''ZodArray'', ''ZodObject'', ''ZodRecord''}"
  have "argsWithDefaults schema args k = apply_default Map.empty (k, fs) k"
    using assms(1,2,3) by (rule argsWithDefaults_absent)
  then have m: "argsWithDefaults schema args k =
      (if typeName (type fs) = ''ZodString'' then Some (JStr [])
       else if typeName (type fs) = ''ZodBoolean'' then Some (JBool False)
       else if typeName (type fs) = ''ZodNumber'' then Some (JNum 0)
       else if typeName (type fs) = ''ZodArray'' then Some (JArr [])
       else if typeName (type fs) = ''ZodObject'' then Some (JObj [])
       else None)"
    using assms(5,6) by (simp add: absent_default [OF assms(4)])
  have tags: "?thesis" if "?other \<Longrightarrow> \<not> isOptional (type fs) \<Longrightarrow> ?fails"
    using that unfolding m by simp
  show ?thesis
  proof (rule tags)
    assume other: ?other and rejects: "\<not> isOptional (type fs)"
    have absent: "argsWithDefaults schema args k = None"
      unfolding m using other by simp
    then have undef: "get_prop (argsWithDefaults schema args) k = JUndefined"
      using assms(4) by (rule get_prop_absent)
    have rule: "field_rule fs = type fs"
      using rejects assms(5,6) by (simp add: field_rule_def isOptional_field_def)
    from rejects obtain issues where issues: "parse (type fs) JUndefined = Inl issues"
      by (auto simp: isOptional_def split: sum.splits)
    then have "parse (field_rule fs) (get_prop (argsWithDefaults schema args) k) = Inl issues"
      using undef rule by simp
    from validatedArgs_fails [OF assms(2) this]
    obtain "is" where "validatedArgs schema args = Inl (ZodError is)"
      and "set (map (add_path (Key k)) issues) \<subseteq> set is" by blast
    with issues show ?fails by (auto simp: getMessages_Some)
  qed
qed

text \<open>
  C3, witness: the \<^verbatim>\<open>message\<close> field of \<^verbatim>\<open>TestPromptWithoutDefaults\<close> called without
  arguments, and a field of type \<^verbatim>\<open>z.number().transform(n => n + 1)\<close>, whose tag
  \<^verbatim>\<open>ZodEffects\<close> is none of the six.
\<close>

theorem sensible_default_by_type_tag_witness:
  "distinct (map fst TestPromptWithoutDefaults)
   \<and> (''message'', \<lparr>type = z_string, description = ''Test message'',
         required = None, default_v = JUndefined\<rparr>) \<in> set TestPromptWithoutDefaults
   \<and> ''message'' \<notin> set Object_prototype
   \<and> argsWithDefaults TestPromptWithoutDefaults Map.empty ''message'' = Some (JStr [])
   \<and> ''step'' \<notin> set Object_prototype
   \<and> argsWithDefaults step_schema Map.empty ''step'' = None
   \<and> \<not> isOptional (transform z_number increment)
   \<and> (\<exists>is. validatedArgs step_schema Map.empty = Inl (ZodError is)
         \<and> ZodIssue ''invalid_type'' [Key ''step''] ''Required'' \<in> set is)"
  using sensible_default_by_type_tag
    [of TestPromptWithoutDefaults "''message''"
        "\<lparr>type = z_string, description = ''Test message'',
          required = None, default_v = JUndefined\<rparr>" Map.empty]
    sensible_default_by_type_tag
    [of step_schema "''step''"
        "\<lparr>type = transform z_number increment, description = ''A step'',
          required = None, default_v = JUndefined\<rparr>" Map.empty "\<lambda>v. Inr v"]
  by (auto simp add: fixture_defs type_defs isOptional_def add_path_def Object_prototype_def)

text \<open>
  C3, counterexample to the claim as stated: a field whose \<^verbatim>\<open>required\<close> is unset and
  whose type is \<^verbatim>\<open>z.string().optional()\<close> has none of the five tags and stays absent,
  but validation does not fail: the call without arguments returns the empty object.
\<close>

theorem optional_type_absent_but_valid:
  "\<not> has_key Map.empty ''note''
   \<and> map (\<lambda>(key, schema). (key, default_v schema, required schema,
                              typeName (type schema))) note_schema
       = [(''note'', JUndefined, None, ''ZodOptional'')]
   \<and> argsWithDefaults note_schema Map.empty ''note'' = None
   \<and> validatedArgs note_schema Map.empty = Inr Map.empty"
  by (simp add: fixture_defs model_defs type_defs)

subsection \<open>C4: an explicit default takes precedence\<close>

text \<open>
  C4 asks that a field with an explicit default that is absent from the arguments resolve
  to that default. The loop tests \<^verbatim>\<open>key in argsWithDefaults\<close>, which is also true of
  the names every object inherits. For a field named \<^verbatim>\<open>constructor\<close> with default 5
  and a call without arguments, the loop finds the name present and does not apply the
  default, the validator reads the inherited function, and the call fails.
\<close>

theorem inherited_name_misses_default:
  "map (\<lambda>(key, schema). (key, default_v schema)) constructor_schema = [(''constructor'', JNum 5)]
   \<and> Map.empty ''constructor'' = (None :: jsval option)
   \<and> has_key Map.empty ''constructor''
   \<and> argsWithDefaults constructor_schema Map.empty ''constructor'' = None
   \<and> validatedArgs constructor_schema Map.empty =
         Inl (ZodError [ZodIssue ''invalid_type'' [Key ''constructor'']
                          ''Expected number, received function''])"
  by (simp add: fixture_defs model_defs type_defs)

text \<open>
  C4, at the same input: the object after the loop does not hold the default.
\<close>

theorem inherited_name_misses_default_witness:
  "argsWithDefaults constructor_schema Map.empty ''constructor'' \<noteq> Some (JNum 5)"
  using inherited_name_misses_default by simp

text \<open>
  For every name that the test of the loop does not find, the default is applied: the
  object after the loop holds exactly the default under the field's name, and when
  validation succeeds, the returned object holds what the declared type parses the default
  to.
\<close>

lemma explicit_default_wins:
  assumes "distinct (map fst schema)" and "(k, fs) \<in> set schema"
    and "\<not> has_key args k" and "default_v fs \<noteq> JUndefined"
  shows "argsWithDefaults schema args k = Some (default_v fs) \<and>
         (\<forall>y. validatedArgs schema args = Inr y \<longrightarrow>
            (\<exists>v. parse (type fs) (default_v fs) = Inr v \<and> y k = Some v))"
proof -
  from assms(3) have none: "args k = None" and name: "k \<notin> set Object_prototype"
    by (simp_all add: absent_iff)
  have "argsWithDefaults schema args k = apply_default Map.empty (k, fs) k"
    using assms(1,2) none by (rule argsWithDefaults_absent)
  also have "\<dots> = Some (default_v fs)"
    using assms(4) by (simp add: absent_default [OF name])
  finally have merged: "argsWithDefaults schema args k = Some (default_v fs)" .
  have "\<exists>v. parse (type fs) (default_v fs) = Inr v \<and> y k = Some v"
    if "validatedArgs schema args = Inr y" for y
  proof -
    from that have p: "z_object_parse (schemaEntries schema) (argsWithDefaults schema args) = Inr y"
      by (simp add: validatedArgs_Inr)
    have d: "distinct (map fst (schemaEntries schema))"
      using assms(1) by (simp only: fst_schemaEntries)
    have rule: "parse (field_rule fs) (default_v fs) = parse (type fs) (default_v fs)"
      using assms(4) by (simp add: field_rule_def optional_def)
    have "has_key (argsWithDefaults schema args) k" using merged by (simp add: own_key)
    with z_object_parse_field [OF p d schemaEntries_mem [OF assms(2)]] merged rule
    show ?thesis by (simp add: get_prop_own)
  qed
  with merged show ?thesis by blast
qed

lemma explicit_default_wins_example:
  "distinct (map fst TestPromptWithDefaults)
   \<and> \<not> has_key [''message'' \<mapsto> JStr ''custom message''] ''count''
   \<and> argsWithDefaults TestPromptWithDefaults [''message'' \<mapsto> JStr ''custom message''] ''count''
       = Some (JNum 42)"
  using explicit_default_wins
    [of TestPromptWithDefaults "''count''"
        "\<lparr>type = z_number, description = ''Test count'', required = None, default_v = JNum 42\<rparr>"
        "[''message'' \<mapsto> JStr ''custom message'']"]
  by (simp add: has_key_def Object_prototype_def TestPromptWithDefaults_def)

subsection \<open>C5: supplied fields are never overwritten\<close>

text \<open>
  C5: every key of the arguments keeps its value through the loop, and so does every name
  that the test of the loop finds without the arguments holding it. A name that the test
  does not find gets what the body of the loop gives for its schema entry on an object
  without that name, and nothing when the schema has no such entry.
\<close>

theorem supplied_fields_are_kept:
  "(has_key args k \<longrightarrow> argsWithDefaults schema args k = args k) \<and>
   (distinct (map fst schema) \<longrightarrow> \<not> has_key args k \<longrightarrow>
      argsWithDefaults schema args k =
        (case map_of schema k of
           None \<Rightarrow> None
         | Some fs \<Rightarrow> apply_default Map.empty (k, fs) k))"
proof (intro conjI impI)
  assume "has_key args k"
  then show "argsWithDefaults schema args k = args k"
    by (rule argsWithDefaults_has_key)
next
  assume d: "distinct (map fst schema)" and "\<not> has_key args k"
  then have absent: "args k = None" by (simp add: absent_iff)
  show "argsWithDefaults schema args k =
        (case map_of schema k of None \<Rightarrow> None | Some fs \<Rightarrow> apply_default Map.empty (k, fs) k)"
  proof (cases "map_of schema k")
    case None
    then have "k \<notin> fst ` set schema" by (simp add: map_of_eq_None_iff)
    then show ?thesis using None absent by (simp add: argsWithDefaults_other)
  next
    case (Some fs)
    then have "(k, fs) \<in> set schema" by (rule map_of_SomeD)
    then show ?thesis using Some d absent by (simp add: argsWithDefaults_absent)
  qed
qed

text \<open>
  C5, witness: \<^verbatim>\<open>TestPromptWithDefaults\<close> called with \<^verbatim>\<open>message\<close> only.
\<close>

theorem supplied_fields_are_kept_witness:
  "has_key [''message'' \<mapsto> JStr ''custom message''] ''message''
   \<and> argsWithDefaults TestPromptWithDefaults [''message'' \<mapsto> JStr ''custom message''] ''message''
       = Some (JStr ''custom message'')
   \<and> distinct (map fst TestPromptWithDefaults)
   \<and> \<not> has_key [''message'' \<mapsto> JStr ''custom message''] ''count''
   \<and> argsWithDefaults TestPromptWithDefaults [''message'' \<mapsto> JStr ''custom message''] ''count''
       = Some (JNum 42)"
  using supplied_fields_are_kept
    [of "[''message'' \<mapsto> JStr ''custom message'']" "''message''" TestPromptWithDefaults]
    supplied_fields_are_kept
    [of "[''message'' \<mapsto> JStr ''custom message'']" "''count''" TestPromptWithDefaults]
  by (simp add: has_key_def Object_prototype_def TestPromptWithDefaults_def apply_default_def)

subsection \<open>C6: resolving a resolved object\<close>

text \<open>
  C6, as the code has it: when every field's declared type returns its own outputs
  unchanged, the object that validation returns is returned again when it is passed back
  as the arguments.
\<close>

theorem resolve_idempotent:
  assumes d: "distinct (map fst schema)"
    and idem: "\<forall>(k, fs) \<in> set schema. idempotent (type fs)"
    and valid: "validatedArgs schema x = Inr y"
  shows "validatedArgs schema y = Inr y"
proof -
  let ?shape = "schemaEntries schema"
  let ?m = "argsWithDefaults schema x"
  let ?m' = "argsWithDefaults schema y"
  have ds: "distinct (map fst ?shape)" using d by (simp only: fst_schemaEntries)
  have keys: "fst ` set ?shape = fst ` set schema"
    using fst_schemaEntries [of schema] by (metis list.set_map)
  have p: "z_object_parse ?shape ?m = Inr y" using valid by (simp add: validatedArgs_Inr)
  have field: "parse (field_rule fs) (get_prop ?m' k) =
                 Inr (get_prop ?m' k) \<and>
               y k = (if get_prop ?m' k \<noteq> JUndefined \<or> has_key ?m' k
                      then Some (get_prop ?m' k) else None)"
    if mem: "(k, fs) \<in> set schema" for k fs
  proof -
    from z_object_parse_field [OF p ds schemaEntries_mem [OF mem]]
    obtain v where v: "parse (field_rule fs) (get_prop ?m k) = Inr v"
      and yk: "y k = (if v \<noteq> JUndefined \<or> has_key ?m k then Some v else None)" by blast
    have "idempotent (field_rule fs)" using idem mem idempotent_field_rule by blast
    then have again: "parse (field_rule fs) v = Inr v" using v by (auto simp: idempotent_def)
    show ?thesis
    proof (cases "y k")
      case (Some w)
      then have w: "w = v" using yk by (simp split: if_splits)
      have "?m' k = Some v" using Some w by (simp add: argsWithDefaults_present)
      then show ?thesis using again Some w by (simp add: get_prop_def has_key_def)
    next
      case None
      then have undef: "v = JUndefined" and "?m k = None" and name: "k \<notin> set Object_prototype"
        using yk by (simp_all add: has_key_def split: if_splits)
      have "x k = None"
      proof (rule ccontr)
        assume "x k \<noteq> None"
        then have "?m k = x k" by (rule argsWithDefaults_present)
        with \<open>x k \<noteq> None\<close> \<open>?m k = None\<close> show False by simp
      qed
      then have "?m k = apply_default Map.empty (k, fs) k"
        using d mem by (simp add: argsWithDefaults_absent)
      moreover have "?m' k = apply_default Map.empty (k, fs) k"
        using d mem None by (simp add: argsWithDefaults_absent)
      ultimately have "?m' k = None" using \<open>?m k = None\<close> by simp
      then show ?thesis using again undef None name by (simp add: get_prop_def has_key_def)
    qed
  qed
  have "\<exists>v. parse t (get_prop ?m' k) = Inr v" if "(k, t) \<in> set ?shape" for k t
  proof -
    from that obtain fs where "(k, fs) \<in> set schema" and "t = field_rule fs"
      by (auto simp: schemaEntries_def)
    with field [of k fs] show ?thesis by blast
  qed
  then obtain y' where p': "z_object_parse ?shape ?m' = Inr y'"
    using z_object_parse_succeeds [of ?shape ?m'] by blast
  have "y' k = y k" for k
  proof (cases "k \<in> fst ` set schema")
    case True
    then obtain fs where mem: "(k, fs) \<in> set schema" by auto
    from z_object_parse_field [OF p' ds schemaEntries_mem [OF mem]] field [OF mem]
    show ?thesis by auto
  next
    case False
    then have "k \<notin> fst ` set ?shape" using keys by simp
    then show ?thesis
      using z_object_parse_other [OF p] z_object_parse_other [OF p'] by simp
  qed
  then have "y' = y" by (rule ext)
  with p' show ?thesis by (simp add: validatedArgs_Inr)
qed

text \<open>
  C6, witness: \<^verbatim>\<open>TestPromptWithoutDefaults\<close> called without arguments.
\<close>

theorem resolve_idempotent_witness:
  "distinct (map fst TestPromptWithoutDefaults)
   \<and> list_all (\<lambda>(k, fs). idempotent (type fs)) TestPromptWithoutDefaults
   \<and> validatedArgs TestPromptWithoutDefaults Map.empty = Inr [''message'' \<mapsto> JStr []]
   \<and> validatedArgs TestPromptWithoutDefaults [''message'' \<mapsto> JStr []]
       = Inr [''message'' \<mapsto> JStr []]"
proof -
  have d: "distinct (map fst TestPromptWithoutDefaults)"
    by (simp add: TestPromptWithoutDefaults_def)
  have i: "\<forall>(k, fs) \<in> set TestPromptWithoutDefaults. idempotent (type fs)"
    by (simp add: TestPromptWithoutDefaults_def z_string_def z_boolean_def
        idempotent_primitive idempotent_optional)
  have v: "validatedArgs TestPromptWithoutDefaults Map.empty = Inr [''message'' \<mapsto> JStr []]"
    by (simp add: fixture_defs model_defs type_defs)
  from i have l: "list_all (\<lambda>(k, fs). idempotent (type fs)) TestPromptWithoutDefaults"
    by (simp only: list_all_iff)
  from d l v resolve_idempotent [OF d i v] show ?thesis by (intro conjI)
qed

text \<open>
  C6, counterexample to the claim as stated: with a field of type
  \<^verbatim>\<open>z.number().transform(n => n + 1)\<close>, the arguments \<^verbatim>\<open>{ step: 1 }\<close> are valid and
  resolve to \<^verbatim>\<open>{ step: 2 }\<close>, which resolves to \<^verbatim>\<open>{ step: 3 }\<close>.
\<close>

theorem transform_is_applied_again:
  "validatedArgs step_schema [''step'' \<mapsto> JNum 1] = Inr [''step'' \<mapsto> JNum 2]
   \<and> validatedArgs step_schema [''step'' \<mapsto> JNum 2] = Inr [''step'' \<mapsto> JNum 3]
   \<and> [''step'' \<mapsto> JNum 3] \<noteq> [''step'' \<mapsto> JNum 2]"
proof -
  have "[''step'' \<mapsto> JNum 3] ''step'' \<noteq> [''step'' \<mapsto> JNum 2] ''step''" by simp
  then have "[''step'' \<mapsto> JNum 3] \<noteq> [''step'' \<mapsto> JNum 2]" by metis
  then show ?thesis by (simp add: fixture_defs model_defs type_defs)
qed

subsection \<open>C7: a default does not hide a value of the wrong type\<close>

text \<open>
  C7, as the code has it: when the arguments hold, for a field of the schema, a value
  other than \<^verbatim>\<open>undefined\<close> that the declared type rejects, validation fails, the
  failure lists the issues of that field under its name, and \<^verbatim>\<open>getMessages\<close> fails
  with it without generating messages. This holds whether or not the field has a default.
\<close>

theorem wrong_type_rejected_despite_default:
  assumes "(k, fs) \<in> set schema" and "args k = Some v" and "v \<noteq> JUndefined"
    and "parse (type fs) v = Inl issues"
  shows "\<exists>is. validatedArgs schema args = Inl (ZodError is)
           \<and> set (map (add_path (Key k)) issues) \<subseteq> set is
           \<and> getMessages generateMessages schema (Some args) = Inl (ZodError is)"
proof -
  have "argsWithDefaults schema args k = Some v"
    using assms(2) by (simp add: argsWithDefaults_present)
  then have "get_prop (argsWithDefaults schema args) k = v" by (simp add: get_prop_def)
  moreover have "parse (field_rule fs) v = Inl issues"
    using assms(3,4) by (simp add: field_rule_def optional_def)
  ultimately have "parse (field_rule fs) (get_prop (argsWithDefaults schema args) k) = Inl issues"
    by simp
  with assms(1) obtain "is" where "validatedArgs schema args = Inl (ZodError is)"
    and "set (map (add_path (Key k)) issues) \<subseteq> set is"
    using validatedArgs_fails by blast
  then show ?thesis by (auto simp: getMessages_Some)
qed

text \<open>
  C7, witness: \<^verbatim>\<open>TestPromptWithDefaults\<close> called with \<^verbatim>\<open>{ count: "invalid" }\<close>.
\<close>

theorem wrong_type_rejected_despite_default_witness:
  "(''count'', \<lparr>type = z_number, description = ''Test count'',
      required = None, default_v = JNum 42\<rparr>) \<in> set TestPromptWithDefaults
   \<and> parse z_number (JStr ''invalid'')
       = Inl [ZodIssue ''invalid_type'' [] ''Expected number, received string'']
   \<and> (\<exists>is. validatedArgs TestPromptWithDefaults [''count'' \<mapsto> JStr ''invalid''] = Inl (ZodError is)
         \<and> ZodIssue ''invalid_type'' [Key ''count''] ''Expected number, received string'' \<in> set is
         \<and> getMessages (\<lambda>v. Inr v) TestPromptWithDefaults (Some [''count'' \<mapsto> JStr ''invalid''])
             = Inl (ZodError is))"
  using wrong_type_rejected_despite_default
    [of "''count''"
        "\<lparr>type = z_number, description = ''Test count'', required = None, default_v = JNum 42\<rparr>"
        TestPromptWithDefaults "[''count'' \<mapsto> JStr ''invalid'']" "JStr ''invalid''"
        "[ZodIssue ''invalid_type'' [] ''Expected number, received string'']" "\<lambda>v. Inr v"]
  by (simp add: fixture_defs type_defs add_path_def)

text \<open>
  C7, counterexample to the claim as stated: \<^verbatim>\<open>z.number()\<close> rejects \<^verbatim>\<open>undefined\<close>,
  but for the field \<^verbatim>\<open>count\<close> with default 42 the arguments \<^verbatim>\<open>{ count: undefined }\<close>
  are accepted: the key is present, so the default is not applied, and the rule is
  wrapped as optional because of the default.
\<close>

theorem undefined_supplied_is_accepted:
  "has_key [''count'' \<mapsto> JUndefined] ''count''
   \<and> map (\<lambda>(key, schema). (key, default_v schema,
                              parse (type schema) JUndefined)) count_schema
       = [(''count'', JNum 42, Inl [ZodIssue ''invalid_type'' [] ''Required''])]
   \<and> validatedArgs count_schema [''count'' \<mapsto> JUndefined] = Inr [''count'' \<mapsto> JUndefined]"
  by (simp add: fixture_defs model_defs type_defs)

subsection \<open>C8: the network helper\<close>

text \<open>
  C8: when the platform's \<^verbatim>\<open>fetch\<close> yields a response that is not ok, the helper fails
  with the message \<^verbatim>\<open>HTTP error! status: \<close> followed by the status, and returns no
  body; when the response is ok, the helper returns what \<^verbatim>\<open>json()\<close> gives.
\<close>

theorem fetch_not_ok_fails:
  assumes "global_fetch url init = Inr response"
  shows "(\<not> ok response \<longrightarrow>
            fetch global_fetch url init =
              Inl (Error (''HTTP error! status: '' @ digits_of_nat (status response)))) \<and>
         (ok response \<longrightarrow> fetch global_fetch url init = json response)"
  using assms by (simp add: fetch_def)

text \<open>
  C8, witness: a response with status 404 and one with status 200.
\<close>

theorem fetch_not_ok_fails_witness:
  "fetch (\<lambda>url init. Inr \<lparr>ok = False, status = 404, json = Inr JNull\<rparr>)
     ''https://example.org/data'' (None :: unit option)
     = Inl (Error ''HTTP error! status: 404'')
   \<and> fetch (\<lambda>url init. Inr \<lparr>ok = True, status = 200, json = Inr (JNum 7)\<rparr>)
     ''https://example.org/data'' (None :: unit option)
     = Inr (JNum 7)"
proof -
  have d: "digits_of_nat 404 = ''404''" by code_simp
  from fetch_not_ok_fails
    [of "\<lambda>url init. Inr \<lparr>ok = False, status = 404, json = Inr JNull\<rparr>"
        "''https://example.org/data''" "None :: unit option"
        "\<lparr>ok = False, status = 404, json = Inr JNull\<rparr>"]
    fetch_not_ok_fails
    [of "\<lambda>url init. Inr \<lparr>ok = True, status = 200, json = Inr (JNum 7)\<rparr>"
        "''https://example.org/data''" "None :: unit option"
        "\<lparr>ok = True, status = 200, json = Inr (JNum 7)\<rparr>"]
  show ?thesis by (simp add: d)
qed

subsection \<open>C9: the caller's object is not mutated\<close>

text \<open>
  C9: on the store, the call leaves every object that existed before it as it was, the
  caller's arguments among them. The copy it allocates holds the arguments with the
  defaults merged in, also after validation. The call either fails or returns the address
  of an object allocated during the call, and the failure or the returned object is the
  one that the function \<^verbatim>\<open>validatedArgs\<close> of the schema and the content of the
  arguments gives.
\<close>

theorem raw_input_is_not_mutated:
  assumes "args < length h"
  shows "case validatedArgs_heap schema h args of
           (h', res) \<Rightarrow>
             (\<forall>i < length h. h' ! i = h ! i) \<and>
             length h < length h' \<and>
             h' ! length h = argsWithDefaults schema (h ! args) \<and>
             (case res of
                Inl e \<Rightarrow> validatedArgs schema (h ! args) = Inl e
              | Inr v \<Rightarrow> length h \<le> v \<and> v < length h' \<and>
                         validatedArgs schema (h ! args) = Inr (h' ! v))"
  by (simp add: validatedArgs_heap_def alloc_def foldl_assign_default validatedArgs_def
      argsWithDefaults_def nth_append split: sum.splits)

text \<open>
  C9, witness: \<^verbatim>\<open>TestPromptAllOptional\<close> called with \<^verbatim>\<open>{ message: "custom" }\<close> at
  address 0.
\<close>

theorem raw_input_is_not_mutated_witness:
  "(0::nat) < length [[''message'' \<mapsto> JStr ''custom'']]
   \<and> validatedArgs_heap TestPromptAllOptional [[''message'' \<mapsto> JStr ''custom'']] 0
       = ([[''message'' \<mapsto> JStr ''custom''], [''message'' \<mapsto> JStr ''custom''],
           [''message'' \<mapsto> JStr ''custom'']], Inr 2)
   \<and> validatedArgs TestPromptAllOptional [''message'' \<mapsto> JStr ''custom'']
       = Inr [''message'' \<mapsto> JStr ''custom'']"
proof -
  have h: "validatedArgs_heap TestPromptAllOptional [[''message'' \<mapsto> JStr ''custom'']] 0
       = ([[''message'' \<mapsto> JStr ''custom''], [''message'' \<mapsto> JStr ''custom''],
           [''message'' \<mapsto> JStr ''custom'']], Inr 2)"
    by (simp add: validatedArgs_heap_def alloc_def assign_default_def fixture_defs model_defs type_defs)
  from raw_input_is_not_mutated [of 0 "[[''message'' \<mapsto> JStr ''custom'']]" TestPromptAllOptional] h
  show ?thesis by simp
qed

subsection \<open>C10: unknown keys are stripped\<close>

text \<open>
  C10: validation gives the same outcome, failure or object, as on the arguments cut down
  to the keys of the schema, so does \<^verbatim>\<open>getMessages\<close>, and the object validation
  returns has keys of the schema only.
\<close>

theorem unknown_keys_are_stripped:
  "validatedArgs schema args = validatedArgs schema (args |` (fst ` set schema)) \<and>
   getMessages generateMessages schema (Some args) =
     getMessages generateMessages schema (Some (args |` (fst ` set schema))) \<and>
   (\<forall>y. validatedArgs schema args = Inr y \<longrightarrow> dom y \<subseteq> fst ` set schema)"
proof (intro conjI)
  let ?K = "fst ` set schema"
  have keys: "fst ` set (schemaEntries schema) = ?K"
    using fst_schemaEntries [of schema] by (metis list.set_map)
  have "\<forall>k \<in> ?K. args k = (args |` ?K) k" by simp
  then have "\<forall>k \<in> ?K. argsWithDefaults schema args k = argsWithDefaults schema (args |` ?K) k"
    using argsWithDefaults_agree [of ?K args "args |` ?K" schema] by blast
  then have "\<forall>k \<in> fst ` set (schemaEntries schema).
        argsWithDefaults schema args k = argsWithDefaults schema (args |` ?K) k"
    by (simp only: keys)
  then have "z_object_parse (schemaEntries schema) (argsWithDefaults schema args) =
        z_object_parse (schemaEntries schema) (argsWithDefaults schema (args |` ?K))"
    by (rule z_object_parse_agree)
  then show same: "validatedArgs schema args = validatedArgs schema (args |` ?K)"
    by (simp add: validatedArgs_def)
  then show "getMessages generateMessages schema (Some args) =
     getMessages generateMessages schema (Some (args |` ?K))"
    by (simp only: getMessages_Some)
  show "\<forall>y. validatedArgs schema args = Inr y \<longrightarrow> dom y \<subseteq> ?K"
  proof (intro allI impI subsetI)
    fix y k assume "validatedArgs schema args = Inr y" and k: "k \<in> dom y"
    then have p: "z_object_parse (schemaEntries schema) (argsWithDefaults schema args) = Inr y"
      by (simp add: validatedArgs_Inr)
    show "k \<in> ?K"
    proof (rule ccontr)
      assume "k \<notin> ?K"
      then have "k \<notin> fst ` set (schemaEntries schema)" using keys by simp
      from z_object_parse_other [OF p this] k show False by auto
    qed
  qed
qed

text \<open>
  C10, witness: \<^verbatim>\<open>TestPromptAllOptional\<close> called with \<^verbatim>\<open>message\<close> and an undeclared
  key \<^verbatim>\<open>extra\<close>.
\<close>

theorem unknown_keys_are_stripped_witness:
  "validatedArgs TestPromptAllOptional [''message'' \<mapsto> JStr ''custom'', ''extra'' \<mapsto> JNum 1]
     = Inr [''message'' \<mapsto> JStr ''custom'']
   \<and> validatedArgs TestPromptAllOptional
        ([''message'' \<mapsto> JStr ''custom'', ''extra'' \<mapsto> JNum 1] |` (fst ` set TestPromptAllOptional))
     = Inr [''message'' \<mapsto> JStr ''custom'']
   \<and> dom [''message'' \<mapsto> JStr ''custom''] \<subseteq> fst ` set TestPromptAllOptional"
proof -
  have v: "validatedArgs TestPromptAllOptional [''message'' \<mapsto> JStr ''custom'', ''extra'' \<mapsto> JNum 1]
             = Inr [''message'' \<mapsto> JStr ''custom'']"
    by (simp add: fixture_defs model_defs type_defs)
  note t = unknown_keys_are_stripped
    [of TestPromptAllOptional "[''message'' \<mapsto> JStr ''custom'', ''extra'' \<mapsto> JNum 1]" "\<lambda>v. Inr v"]
  from t v have r: "validatedArgs TestPromptAllOptional
        ([''message'' \<mapsto> JStr ''custom'', ''extra'' \<mapsto> JNum 1] |` (fst ` set TestPromptAllOptional))
     = Inr [''message'' \<mapsto> JStr ''custom'']" by metis
  from t v have "dom [''message'' \<mapsto> JStr ''custom''] \<subseteq> fst ` set TestPromptAllOptional"
    by blast
  with v r show ?thesis by (intro conjI)
qed

end
